theory Spec2Isabelle
  imports Complex_Main "HOL-Library.Word"
begin

section \<open>Audio data: bytes, 16-bit samples and RMS energy\<close>

text \<open>
  The adapters in \<^verbatim>\<open>oss_demos/\<close> receive raw audio as Python \<^verbatim>\<open>bytes\<close>: little-endian
  16-bit signed PCM, mono. Each adapter hands a chunk to \<^verbatim>\<open>pydub.AudioSegment\<close> and reads
  its \<^verbatim>\<open>rms\<close> property, which is \<^verbatim>\<open>audioop.rms(data, 2)\<close>: the square root of the mean of
  the squared samples, truncated to an unsigned integer, and 0 for empty data.
\<close>

type_synonym byte = "8 word"

datatype error = ValueError | AttributeError | ZeroDivisionError | UnknownValueError | RequestError | OtherError

definition sample16 :: "byte \<Rightarrow> byte \<Rightarrow> int" where
  "sample16 lo hi =
     (let u = int (unat lo) + 256 * int (unat hi)
      in if u < 32768 then u else u - 65536)"

fun samples :: "byte list \<Rightarrow> int list" where
  "samples (lo # hi # rest) = sample16 lo hi # samples rest"
| "samples [b] = []"
| "samples [] = []"

definition sum_squares :: "byte list \<Rightarrow> nat" where
  "sum_squares data = nat (sum_list (map (\<lambda>v. v * v) (samples data)))"

text \<open>Integer square root (the truncation of \<^verbatim>\<open>sqrt\<close> to an unsigned integer).\<close>

fun isqrt :: "nat \<Rightarrow> nat" where
  "isqrt n =
     (if n < 2 then n
      else let r = 2 * isqrt (n div 4)
           in if (r + 1) * (r + 1) \<le> n then r + 1 else r)"

declare isqrt.simps [simp del]

text \<open>
  \<^verbatim>\<open>AudioSegment(data, frame_rate=..., sample_width=2, channels=1)\<close> raises \<^verbatim>\<open>ValueError\<close>
  when the data length is not a multiple of \<^verbatim>\<open>sample_width * channels\<close>.
\<close>

definition AudioSegment :: "byte list \<Rightarrow> error + byte list" where
  "AudioSegment data = (if length data mod 2 \<noteq> 0 then Inl ValueError else Inr data)"

definition rms :: "byte list \<Rightarrow> int" where
  "rms data =
     (if length data = 0 then 0
      else int (isqrt (sum_squares data div (length data div 2))))"

section \<open>The in-memory WAV buffer\<close>

text \<open>
  Every adapter accumulates audio through \<^verbatim>\<open>wave.open(io.BytesIO(), 'wb')\<close>. The writer
  emits the 44-byte RIFF header on the first \<^verbatim>\<open>writeframes\<close> (or on \<^verbatim>\<open>close\<close>), then appends
  the raw bytes it is given; the file position stays at the end of the data.
\<close>

record wav_buffer =
  header_written :: bool
  frames :: "byte list"

definition new_buffer :: wav_buffer where
  "new_buffer = \<lparr>header_written = False, frames = []\<rparr>"

definition writeframes :: "byte list \<Rightarrow> wav_buffer \<Rightarrow> wav_buffer" where
  "writeframes data b = b\<lparr>header_written := True, frames := frames b @ data\<rparr>"

definition tell :: "wav_buffer \<Rightarrow> nat" where
  "tell b = (if header_written b then 44 + length (frames b) else 0)"

definition close_writer :: "wav_buffer \<Rightarrow> wav_buffer" where
  "close_writer b = b\<lparr>header_written := True\<rparr>"

definition le16 :: "nat \<Rightarrow> byte list" where
  "le16 n = [of_nat n, of_nat (n div 256)]"

definition le32 :: "nat \<Rightarrow> byte list" where
  "le32 n = [of_nat n, of_nat (n div 256), of_nat (n div 65536), of_nat (n div 16777216)]"

definition ascii :: "string \<Rightarrow> byte list" where
  "ascii s = map (\<lambda>c. of_nat (of_char c)) s"

definition wav_header :: "int \<Rightarrow> nat \<Rightarrow> byte list" where
  "wav_header rate datalen =
     ascii ''RIFF'' @ le32 (36 + datalen) @ ascii ''WAVE'' @ ascii ''fmt '' @ le32 16
       @ le16 1 @ le16 1 @ le32 (nat rate) @ le32 (nat rate * 2) @ le16 2 @ le16 16
       @ ascii ''data'' @ le32 datalen"

definition read_all :: "int \<Rightarrow> wav_buffer \<Rightarrow> byte list" where
  "read_all rate b =
     (if header_written b then wav_header rate (length (frames b)) @ frames b else [])"

section \<open>Transcriptions\<close>

record transcription =
  message :: string
  confidence :: real
  is_final :: bool

text \<open>
  What one recognition attempt did: the payloads handed to the recognition backend and the
  transcriptions passed to \<^verbatim>\<open>produce_nonblocking\<close>.
\<close>

record flush_result =
  recognizer_calls :: "byte list list"
  produced :: "transcription list"

text \<open>
  \<^verbatim>\<open>str.strip()\<close> removes leading and trailing white space. A \<open>char\<close> is a code point
  below 256; the white space among these is the blank, U+0009 to U+000D, U+001C to U+001F,
  U+0085 and U+00A0.
\<close>

definition is_space :: "char \<Rightarrow> bool" where
  "is_space c = (c \<in> set [CHR '' '', CHR 0x09, CHR 0x0A, CHR 0x0B, CHR 0x0C, CHR 0x0D,
                            CHR 0x1C, CHR 0x1D, CHR 0x1E, CHR 0x1F, CHR 0x85, CHR 0xA0])"

definition strip :: "string \<Rightarrow> string" where
  "strip s = rev (dropWhile is_space (rev (dropWhile is_space s)))"

section \<open>The whisper.cpp adapter (\<^verbatim>\<open>whisper_cpp_transcriber.py\<close>)\<close>

record transcriber_config =
  sampling_rate :: int
  chunk_duration_seconds :: real
  silence_threshold :: int
  min_chunk_duration :: real

record whisper_attrs =
  cfg_sampling_rate :: int
  chunk_duration :: real
  chunk_size :: int
  attr_silence_threshold :: int
  attr_min_chunk_duration :: real
  max_silence_chunks :: int

text \<open>Python's \<^verbatim>\<open>int(x)\<close> on a float truncates towards zero.\<close>

definition py_int :: "real \<Rightarrow> int" where
  "py_int x = (if 0 \<le> x then \<lfloor>x\<rfloor> else \<lceil>x\<rceil>)"

text \<open>
  \<^verbatim>\<open>__init__\<close>: the chunk size in bytes and the number of silent chunks that end an
  utterance are derived from the configuration. Floats are modelled as reals; both
  divisions raise \<^verbatim>\<open>ZeroDivisionError\<close> on a zero divisor.
\<close>

definition init :: "transcriber_config \<Rightarrow> error + whisper_attrs" where
  "init c =
     (let cs = py_int (real_of_int (sampling_rate c) * chunk_duration_seconds c * 2)
      in if sampling_rate c = 0 then Inl ZeroDivisionError
         else let d = real_of_int cs / real_of_int (sampling_rate c) / 2
              in if d = 0 then Inl ZeroDivisionError
                 else Inr \<lparr>cfg_sampling_rate = sampling_rate c,
                           chunk_duration = chunk_duration_seconds c,
                           chunk_size = cs,
                           attr_silence_threshold = silence_threshold c,
                           attr_min_chunk_duration = min_chunk_duration c,
                           max_silence_chunks = py_int (0.5 / d)\<rparr>)"

subsection \<open>\<^verbatim>\<open>_run_loop\<close>: re-chunking the input\<close>

text \<open>Python slices \<^verbatim>\<open>xs[:n]\<close> and \<^verbatim>\<open>xs[n:]\<close>; a negative \<^verbatim>\<open>n\<close> counts from the end.\<close>

definition slice_to :: "int \<Rightarrow> 'a list \<Rightarrow> 'a list" where
  "slice_to n xs = (if 0 \<le> n then take (nat n) xs else take (length xs - nat (- n)) xs)"

definition slice_from :: "int \<Rightarrow> 'a list \<Rightarrow> 'a list" where
  "slice_from n xs = (if 0 \<le> n then drop (nat n) xs else drop (length xs - nat (- n)) xs)"

text \<open>
  One iteration of the ingestion loop on a chunk taken from the input queue: the state is
  the accumulator, the result also lists what was put on \<^verbatim>\<open>audio_queue\<close>.
\<close>

definition run_loop_step :: "whisper_attrs \<Rightarrow> byte list \<Rightarrow> byte list \<Rightarrow> byte list \<times> byte list list" where
  "run_loop_step a accumulated_audio chunk =
     (let acc = accumulated_audio @ chunk
      in if int (length acc) \<ge> chunk_size a
         then (slice_from (chunk_size a) acc, [slice_to (chunk_size a) acc])
         else (acc, []))"

fun run_loop :: "whisper_attrs \<Rightarrow> byte list \<Rightarrow> byte list list \<Rightarrow> byte list \<times> byte list list" where
  "run_loop a acc [] = (acc, [])"
| "run_loop a acc (chunk # rest) =
     (let (acc1, put1) = run_loop_step a acc chunk;
          (acc2, put2) = run_loop a acc1 rest
      in (acc2, put1 @ put2))"

subsection \<open>\<^verbatim>\<open>_transcribe_buffer\<close>\<close>

text \<open>
  The recognition backend (\<^verbatim>\<open>WhisperCPPWrapper.transcribe_audio_data\<close>) is external: it
  returns a text or raises. Any exception is caught inside \<^verbatim>\<open>_transcribe_buffer\<close>.
\<close>

type_synonym backend = "byte list \<Rightarrow> error + string"

definition transcribe_buffer :: "backend \<Rightarrow> whisper_attrs \<Rightarrow> wav_buffer \<Rightarrow> flush_result" where
  "transcribe_buffer whisper a buf =
     (let audio_data = read_all (cfg_sampling_rate a) (close_writer buf)
      in if length audio_data > 44
         then (case whisper (drop 44 audio_data) of
                 Inl e \<Rightarrow> \<lparr>recognizer_calls = [drop 44 audio_data], produced = []\<rparr>
               | Inr text \<Rightarrow>
                   if text \<noteq> [] \<and> strip text \<noteq> []
                   then \<lparr>recognizer_calls = [drop 44 audio_data],
                         produced = [\<lparr>message = strip text, confidence = 0.98, is_final = True\<rparr>]\<rparr>
                   else \<lparr>recognizer_calls = [drop 44 audio_data], produced = []\<rparr>)
         else \<lparr>recognizer_calls = [], produced = []\<rparr>)"

subsection \<open>\<^verbatim>\<open>_process_audio_loop\<close>\<close>

text \<open>
  The loop's variables. \<^verbatim>\<open>silence_counter\<close> is an attribute of the transcriber, the others
  are locals of the loop.
\<close>

record whisper_state =
  audio_buffer :: wav_buffer
  buffer_start_time :: real
  has_speech :: bool
  silence_counter :: int

definition initial_state :: "real \<Rightarrow> whisper_state" where
  "initial_state t0 =
     \<lparr>audio_buffer = new_buffer, buffer_start_time = t0, has_speech = False, silence_counter = 0\<rparr>"

text \<open>
  What \<^verbatim>\<open>audio_queue.get(timeout=0.1)\<close> gives in one iteration, with the readings of
  \<^verbatim>\<open>time.time()\<close> that the iteration takes: the first where the duration is computed, the
  second where the start time is reset after a flush.
\<close>

datatype event = Chunk "byte list" real real | Empty real real

definition should_process :: "whisper_attrs \<Rightarrow> whisper_state \<Rightarrow> real \<Rightarrow> bool" where
  "should_process a st buffer_duration =
     ((has_speech st \<and> silence_counter st \<ge> max_silence_chunks a \<and>
       buffer_duration \<ge> attr_min_chunk_duration a) \<or>
      buffer_duration \<ge> chunk_duration a * 2)"

definition update_silence :: "whisper_attrs \<Rightarrow> byte list \<Rightarrow> whisper_state \<Rightarrow> whisper_state" where
  "update_silence a seg st =
     (if rms seg > attr_silence_threshold a
      then st\<lparr>has_speech := True, silence_counter := 0\<rparr>
      else st\<lparr>silence_counter := silence_counter st + 1\<rparr>)"

definition process_event :: "backend \<Rightarrow> whisper_attrs \<Rightarrow> whisper_state \<Rightarrow> event
    \<Rightarrow> whisper_state \<times> flush_result option" where
  "process_event whisper a st ev =
     (case ev of
        Chunk audio_data now now_reset \<Rightarrow>
          (let st1 = st\<lparr>audio_buffer := writeframes audio_data (audio_buffer st)\<rparr>
           in (case AudioSegment audio_data of
                 Inl e \<Rightarrow> (st1, None)
               | Inr seg \<Rightarrow>
                   let st2 = update_silence a seg st1;
                       buffer_duration = now - buffer_start_time st2
                   in if should_process a st2 buffer_duration \<and> tell (audio_buffer st2) > 0
                      then (\<lparr>audio_buffer = new_buffer, buffer_start_time = now_reset,
                             has_speech = False, silence_counter = 0\<rparr>,
                            Some (transcribe_buffer whisper a (audio_buffer st2)))
                      else (st2, None)))
      | Empty now now_reset \<Rightarrow>
          if has_speech st \<and> now - buffer_start_time st \<ge> attr_min_chunk_duration a
          then (st\<lparr>audio_buffer := new_buffer, buffer_start_time := now_reset,
                   has_speech := False\<rparr>,
                Some (transcribe_buffer whisper a (audio_buffer st)))
          else (st, None))"

fun process_audio_loop :: "backend \<Rightarrow> whisper_attrs \<Rightarrow> whisper_state \<Rightarrow> event list
    \<Rightarrow> whisper_state \<times> flush_result list" where
  "process_audio_loop whisper a st [] = (st, [])"
| "process_audio_loop whisper a st (ev # rest) =
     (let (st1, out1) = process_event whisper a st ev;
          (st2, out2) = process_audio_loop whisper a st1 rest
      in (st2, (case out1 of None \<Rightarrow> [] | Some r \<Rightarrow> [r]) @ out2))"

section \<open>The Google adapter of \<^verbatim>\<open>high_performance_oss_demo.py\<close>\<close>


record hp_attrs =
  hp_rate :: int
  hp_energy_threshold :: int
  hp_chunk_duration :: real
  hp_chunk_size :: int
  hp_max_silence_chunks :: int


text \<open>
  \<^verbatim>\<open>_run_loop\<close>: input chunks are collected in the list \<^verbatim>\<open>current_buffer\<close> and joined onto
  \<^verbatim>\<open>audio_queue\<close> once the list length times the length of the latest chunk reaches
  twice the chunk size.
\<close>

definition hp_run_loop_step :: "hp_attrs \<Rightarrow> byte list list \<Rightarrow> byte list
    \<Rightarrow> byte list list \<times> byte list list" where
  "hp_run_loop_step a current_buffer chunk =
     (let cb = current_buffer @ [chunk]
      in if int (length cb) * int (length chunk) \<ge> hp_chunk_size a * 2
         then ([], [concat cb])
         else (cb, []))"


text \<open>
  \<^verbatim>\<open>_process_audio_loop\<close>. The recognition call (\<^verbatim>\<open>AudioSegment.from_wav\<close> followed by
  \<^verbatim>\<open>recognize_google\<close>) is external: it returns a text or raises. \<^verbatim>\<open>UnknownValueError\<close> and
  \<^verbatim>\<open>RequestError\<close> are handled next to the call; any other exception reaches the loop's
  outer handler, which skips the reset and leaves the writer closed, so that every later
  \<^verbatim>\<open>writeframes\<close> raises.
\<close>

record hp_state =
  accumulated_audio :: wav_buffer
  writer_closed :: bool
  speech_detected :: bool
  hp_silence_counter :: int

definition hp_initial_state :: hp_state where
  "hp_initial_state =
     \<lparr>accumulated_audio = new_buffer, writer_closed = False, speech_detected = False,
      hp_silence_counter = 0\<rparr>"

datatype hp_event = HpChunk "byte list" | HpEmpty

definition hp_update_silence :: "hp_attrs \<Rightarrow> byte list \<Rightarrow> hp_state \<Rightarrow> hp_state" where
  "hp_update_silence a seg st =
     (if rms seg > hp_energy_threshold a
      then st\<lparr>speech_detected := True, hp_silence_counter := 0\<rparr>
      else st\<lparr>hp_silence_counter := hp_silence_counter st + 1\<rparr>)"

definition hp_recognize :: "backend \<Rightarrow> hp_attrs \<Rightarrow> hp_state \<Rightarrow> hp_state \<times> flush_result option" where
  "hp_recognize google a st =
     (let payload = drop 44 (read_all (hp_rate a) (close_writer (accumulated_audio st)));
          reset = \<lparr>accumulated_audio = new_buffer, writer_closed = False,
                   speech_detected = False, hp_silence_counter = 0\<rparr>
      in (case google payload of
            Inr text \<Rightarrow>
              (reset, Some \<lparr>recognizer_calls = [payload],
                            produced = (if text \<noteq> []
                                        then [\<lparr>message = text, confidence = 0.95, is_final = True\<rparr>]
                                        else [])\<rparr>)
          | Inl e \<Rightarrow>
              if e = UnknownValueError \<or> e = RequestError
              then (reset, Some \<lparr>recognizer_calls = [payload], produced = []\<rparr>)
              else (st\<lparr>accumulated_audio := close_writer (accumulated_audio st),
                       writer_closed := True\<rparr>,
                    Some \<lparr>recognizer_calls = [payload], produced = []\<rparr>)))"

definition hp_process_event :: "backend \<Rightarrow> hp_attrs \<Rightarrow> hp_state \<Rightarrow> hp_event
    \<Rightarrow> hp_state \<times> flush_result option" where
  "hp_process_event google a st ev =
     (case ev of
        HpEmpty \<Rightarrow> (st, None)
      | HpChunk audio_data \<Rightarrow>
          if writer_closed st then (st, None)
          else let st1 = st\<lparr>accumulated_audio := writeframes audio_data (accumulated_audio st)\<rparr>
               in (case AudioSegment audio_data of
                     Inl e \<Rightarrow> (st1, None)
                   | Inr seg \<Rightarrow>
                       let st2 = hp_update_silence a seg st1
                       in if speech_detected st2 \<and> hp_silence_counter st2 \<ge> hp_max_silence_chunks a
                          then hp_recognize google a st2
                          else (st2, None)))"

fun hp_process_audio_loop :: "backend \<Rightarrow> hp_attrs \<Rightarrow> hp_state \<Rightarrow> hp_event list
    \<Rightarrow> hp_state \<times> flush_result list" where
  "hp_process_audio_loop google a st [] = (st, [])"
| "hp_process_audio_loop google a st (ev # rest) =
     (let (st1, out1) = hp_process_event google a st ev;
          (st2, out2) = hp_process_audio_loop google a st1 rest
      in (st2, (case out1 of None \<Rightarrow> [] | Some r \<Rightarrow> [r]) @ out2))"

section \<open>The Google adapter of \<^verbatim>\<open>google_sr_transcriber.py\<close>\<close>

text \<open>
  \<^verbatim>\<open>_process_audio\<close>: every outcome of the recognition call is handled inside, and the
  \<^verbatim>\<open>finally\<close> clause installs a fresh buffer and writer.
\<close>

definition process_audio :: "backend \<Rightarrow> int \<Rightarrow> wav_buffer \<Rightarrow> wav_buffer \<times> flush_result" where
  "process_audio google rate buf =
     (let payload = drop 44 (read_all rate (close_writer buf))
      in (new_buffer,
          (case google payload of
             Inr text \<Rightarrow>
               \<lparr>recognizer_calls = [payload],
                produced = (if text \<noteq> []
                            then [\<lparr>message = text, confidence = 0.9, is_final = True\<rparr>]
                            else [])\<rparr>
           | Inl e \<Rightarrow> \<lparr>recognizer_calls = [payload], produced = []\<rparr>)))"

text \<open>The body of \<^verbatim>\<open>_run_loop\<close> for one chunk; \<^verbatim>\<open>buffer_size\<close> is \<^verbatim>\<open>int(sampling_rate * 2)\<close>.\<close>

definition gsr_body :: "backend \<Rightarrow> int \<Rightarrow> wav_buffer \<Rightarrow> byte list \<Rightarrow> wav_buffer \<times> flush_result option" where
  "gsr_body google rate buf chunk =
     (let buf1 = writeframes chunk buf
      in if int (tell buf1) \<ge> rate * 2
         then (let (buf2, r) = process_audio google rate buf1 in (buf2, Some r))
         else (buf1, None))"

section \<open>The loops and the stop flag\<close>

text \<open>
  \<^verbatim>\<open>terminate()\<close> sets \<^verbatim>\<open>self._ended\<close>. Each loop is \<^verbatim>\<open>while not self._ended\<close> around a queue
  read. What the loop meets while it waits is a script of arrivals and of the call of
  \<^verbatim>\<open>terminate()\<close>; when the script is over, nothing arrives any more.

  \<^verbatim>\<open>_run_loop\<close> reads with \<^verbatim>\<open>self.input_janus_queue.sync_q.get()\<close>, which has no timeout: the
  thread stays in \<^verbatim>\<open>get\<close> until a chunk arrives, and tests the flag only after it has
  handled that chunk. The result \<open>None\<close> says that the loop never returns.
\<close>

datatype 'a env = Arrive 'a | Terminate

fun blocking_loop :: "('s \<Rightarrow> 'a \<Rightarrow> 's) \<Rightarrow> bool \<Rightarrow> 's \<Rightarrow> 'a env list \<Rightarrow> 's option" where
  "blocking_loop body ended st [] = None"
| "blocking_loop body ended st (Terminate # script) = blocking_loop body True st script"
| "blocking_loop body ended st (Arrive x # script) =
     (let st1 = body st x
      in if ended then Some st1 else blocking_loop body False st1 script)"

definition run_blocking_loop :: "('s \<Rightarrow> 'a \<Rightarrow> 's) \<Rightarrow> bool \<Rightarrow> 's \<Rightarrow> 'a env list \<Rightarrow> 's option" where
  "run_blocking_loop body ended st script =
     (if ended then Some st else blocking_loop body False st script)"

text \<open>
  \<^verbatim>\<open>_process_audio_loop\<close> reads with \<^verbatim>\<open>self.audio_queue.get(timeout=0.1)\<close>: when nothing
  arrives, \<^verbatim>\<open>queue.Empty\<close> is raised after the poll interval and the loop is back at its
  head. With the script over, the loop returns if the flag is set and polls for ever
  otherwise.
\<close>

fun polling_loop :: "('s \<Rightarrow> 'a option \<Rightarrow> 's) \<Rightarrow> bool \<Rightarrow> 's \<Rightarrow> 'a env list \<Rightarrow> 's option" where
  "polling_loop body ended st [] = (if ended then Some (body st None) else None)"
| "polling_loop body ended st (Terminate # script) = polling_loop body True st script"
| "polling_loop body ended st (Arrive x # script) =
     (let st1 = body st (Some x)
      in if ended then Some st1 else polling_loop body False st1 script)"

definition run_polling_loop :: "('s \<Rightarrow> 'a option \<Rightarrow> 's) \<Rightarrow> bool \<Rightarrow> 's \<Rightarrow> 'a env list \<Rightarrow> 's option" where
  "run_polling_loop body ended st script =
     (if ended then Some st else polling_loop body False st script)"

text \<open>The three ingestion loops, each with its own body.\<close>

definition gsr_run_loop :: "backend \<Rightarrow> int \<Rightarrow> bool \<Rightarrow> wav_buffer \<Rightarrow> byte list env list \<Rightarrow> wav_buffer option" where
  "gsr_run_loop google rate =
     run_blocking_loop (\<lambda>buf chunk. fst (gsr_body google rate buf chunk))"

definition whisper_run_loop :: "whisper_attrs \<Rightarrow> bool \<Rightarrow> byte list \<Rightarrow> byte list env list \<Rightarrow> byte list option" where
  "whisper_run_loop a = run_blocking_loop (\<lambda>acc chunk. fst (run_loop_step a acc chunk))"

definition hp_run_loop_ended :: "hp_attrs \<Rightarrow> bool \<Rightarrow> byte list list \<Rightarrow> byte list env list
    \<Rightarrow> byte list list option" where
  "hp_run_loop_ended a = run_blocking_loop (\<lambda>cb chunk. fst (hp_run_loop_step a cb chunk))"

text \<open>The processing loop of \<^verbatim>\<open>high_performance_oss_demo.py\<close> under the stop flag.\<close>

definition hp_process_loop_ended :: "backend \<Rightarrow> hp_attrs \<Rightarrow> bool \<Rightarrow> hp_state \<Rightarrow> byte list env list
    \<Rightarrow> hp_state option" where
  "hp_process_loop_ended google a =
     run_polling_loop (\<lambda>st x. fst (hp_process_event google a st
        (case x of None \<Rightarrow> HpEmpty | Some audio_data \<Rightarrow> HpChunk audio_data)))"

section \<open>Signals, configurations and predicates of the statements\<close>

text \<open>A chunk of \<open>n\<close> equal samples, each with low byte \<open>lo\<close> and high byte \<open>hi\<close>.\<close>

definition tone :: "nat \<Rightarrow> byte \<Rightarrow> byte \<Rightarrow> byte list" where
  "tone n lo hi = concat (replicate n [lo, hi])"


text \<open>
  Three configurations of the whisper.cpp adapter, each with the attributes that
  \<^verbatim>\<open>__init__\<close> derives from it: 16 kHz with chunks of a quarter and of an eighth of a second,
  and 11025 Hz with chunks of half a second (an odd number of bytes).
\<close>

definition example_config :: transcriber_config where
  "example_config = \<lparr>sampling_rate = 16000, chunk_duration_seconds = 1 / 4,
                      silence_threshold = 500, min_chunk_duration = 1 / 2\<rparr>"

definition example_attrs :: whisper_attrs where
  "example_attrs = \<lparr>cfg_sampling_rate = 16000, chunk_duration = 1 / 4, chunk_size = 8000,
                     attr_silence_threshold = 500, attr_min_chunk_duration = 1 / 2,
                     max_silence_chunks = 2\<rparr>"



definition odd_config :: transcriber_config where
  "odd_config = \<lparr>sampling_rate = 11025, chunk_duration_seconds = 1 / 2,
                  silence_threshold = 500, min_chunk_duration = 1 / 2\<rparr>"

definition odd_attrs :: whisper_attrs where
  "odd_attrs = \<lparr>cfg_sampling_rate = 11025, chunk_duration = 1 / 2, chunk_size = 11025,
                 attr_silence_threshold = 500, attr_min_chunk_duration = 1 / 2,
                 max_silence_chunks = 1\<rparr>"


definition hp_example_attrs :: hp_attrs where
  "hp_example_attrs = \<lparr>hp_rate = 16000, hp_energy_threshold = 300, hp_chunk_duration = 1 / 2,
                        hp_chunk_size = 8000, hp_max_silence_chunks = 2\<rparr>"

text \<open>A recognition backend that hears nothing.\<close>

definition silent_backend :: backend where
  "silent_backend payload = Inr []"

text \<open>A configuration with chunks of four bytes (4 Hz, half a second).\<close>

definition tiny_config :: transcriber_config where
  "tiny_config = \<lparr>sampling_rate = 4, chunk_duration_seconds = 1 / 2,
                   silence_threshold = 500, min_chunk_duration = 1 / 2\<rparr>"

definition tiny_attrs :: whisper_attrs where
  "tiny_attrs = \<lparr>cfg_sampling_rate = 4, chunk_duration = 1 / 2, chunk_size = 4,
                  attr_silence_threshold = 500, attr_min_chunk_duration = 1 / 2,
                  max_silence_chunks = 1\<rparr>"



text \<open>A recognition backend that always hears the same word, with blanks around it.\<close>

definition hello_backend :: backend where
  "hello_backend payload = Inr '' hello ''"




section \<open>Auxiliary facts\<close>

lemma wav_header_length: "length (wav_header r n) = 44"
  by (simp add: wav_header_def le16_def le32_def ascii_def)

lemma isqrt_correct: "isqrt n * isqrt n \<le> n \<and> n < (isqrt n + 1) * (isqrt n + 1)"
proof (induction n rule: isqrt.induct)
  case (1 n)
  show ?case
  proof (cases "n < 2")
    case True
    have "isqrt n = n" using True by (subst isqrt.simps) simp
    then show ?thesis using True by auto
  next
    case False
    define s where "s = isqrt (n div 4)"
    from 1[OF False] have ih: "s * s \<le> n div 4" "n div 4 < (s + 1) * (s + 1)"
      by (simp_all add: s_def)
    have a: "(2 * s) * (2 * s) \<le> n" using ih(1) by (simp add: algebra_simps)
    have b: "n < (2 * s + 2) * (2 * s + 2)" using ih(2) by (simp add: algebra_simps)
    have e: "isqrt n = (if (2 * s + 1) * (2 * s + 1) \<le> n then 2 * s + 1 else 2 * s)"
      using False by (subst isqrt.simps) (simp add: Let_def s_def)
    show ?thesis using a b unfolding e by (simp add: algebra_simps)
  qed
qed

lemma isqrt_unique:
  assumes "k * k \<le> n" "n < (k + 1) * (k + 1)"
  shows "isqrt n = k"
proof -
  let ?r = "isqrt n"
  have c: "?r * ?r \<le> n" "n < (?r + 1) * (?r + 1)" using isqrt_correct[of n] by auto
  have "\<not> ?r < k"
  proof
    assume "?r < k"
    then have "?r + 1 \<le> k" by simp
    then have "(?r + 1) * (?r + 1) \<le> k * k" using mult_le_mono by blast
    then show False using c(2) assms(1) by linarith
  qed
  moreover have "\<not> k < ?r"
  proof
    assume "k < ?r"
    then have "k + 1 \<le> ?r" by simp
    then have "(k + 1) * (k + 1) \<le> ?r * ?r" using mult_le_mono by blast
    then show False using c(1) assms(2) by linarith
  qed
  ultimately show ?thesis by simp
qed

lemma isqrt_square: "isqrt (k * k) = k"
  by (rule isqrt_unique) simp_all

lemma samples_tone: "samples (tone n lo hi) = replicate n (sample16 lo hi)"
  by (induction n) (simp_all add: tone_def)

lemma length_tone: "length (tone n lo hi) = 2 * n"
  by (induction n) (simp_all add: tone_def)

lemma sum_list_replicate_int: "sum_list (replicate n (x::int)) = int n * x"
  by (induction n) (simp_all add: algebra_simps)

lemma rms_tone:
  assumes "0 < n"
  shows "rms (tone n lo hi) = \<bar>sample16 lo hi\<bar>"
proof -
  let ?v = "sample16 lo hi"
  have s: "sum_squares (tone n lo hi) = n * nat (?v * ?v)"
    by (simp add: sum_squares_def samples_tone sum_list_replicate_int nat_mult_distrib)
  have q: "nat (?v * ?v) = nat \<bar>?v\<bar> * nat \<bar>?v\<bar>"
    by (simp add: nat_mult_distrib[symmetric])
  have "isqrt (nat (?v * ?v)) = nat \<bar>?v\<bar>"
    unfolding q by (rule isqrt_square)
  then show ?thesis using assms
    by (simp add: rms_def length_tone s)
qed

lemma floor_sqrt_div:
  assumes "0 < n"
  shows "int (isqrt (S div n)) = \<lfloor>sqrt (real S / real n)\<rfloor>"
proof -
  let ?k = "isqrt (S div n)"
  have c: "?k * ?k \<le> S div n" "S div n < (?k + 1) * (?k + 1)"
    using isqrt_correct[of "S div n"] by auto
  have "?k * ?k * n \<le> S div n * n" using c(1) by simp
  also have "\<dots> \<le> S" by simp
  finally have lo: "real (?k * ?k) * real n \<le> real S"
    by (metis of_nat_mult of_nat_le_iff)
  have "S < (S div n + 1) * n" using assms
    by (metis add.commute div_less_iff_less_mult less_add_one mult.commute)
  also have "\<dots> \<le> (?k + 1) * (?k + 1) * n" using c(2) by simp
  finally have hi: "real S < real ((?k + 1) * (?k + 1)) * real n"
    by (metis of_nat_mult of_nat_less_iff)
  have rn: "0 < real n" using assms by simp
  have lo': "(real ?k)\<^sup>2 \<le> real S / real n"
    using lo rn by (simp add: power2_eq_square pos_le_divide_eq)
  have hi': "real S / real n < (real ?k + 1)\<^sup>2"
    using hi rn by (simp add: power2_eq_square pos_divide_less_eq algebra_simps)
  have "real ?k \<le> sqrt (real S / real n)"
    using lo' by (rule real_le_rsqrt)
  moreover have "sqrt (real S / real n) < real ?k + 1"
    using hi' by (intro real_less_lsqrt) simp_all
  ultimately have "\<lfloor>sqrt (real S / real n)\<rfloor> = int ?k"
    by (intro floor_unique) simp_all
  then show ?thesis by simp
qed

lemma init_example: "init example_config = Inr example_attrs"
  by (simp add: init_def example_config_def example_attrs_def py_int_def Let_def)


lemma init_odd: "init odd_config = Inr odd_attrs"
  by (simp add: init_def odd_config_def odd_attrs_def py_int_def Let_def)


lemma sample16_500: "sample16 0xF4 0x01 = 500"
  by (simp add: sample16_def)

lemma sample16_1000: "sample16 0xE8 0x03 = 1000"
  by (simp add: sample16_def)

lemma sample16_0: "sample16 0 0 = 0"
  by (simp add: sample16_def)

lemma AudioSegment_tone: "AudioSegment (tone n lo hi) = Inr (tone n lo hi)"
  by (simp add: AudioSegment_def length_tone)


lemma rms_floor_sqrt:
  "rms audio_data =
     (if length audio_data < 2 then 0
      else \<lfloor>sqrt (real (sum_squares audio_data) / real (length audio_data div 2))\<rfloor>)"
proof (cases "length audio_data < 2")
  case True
  then have "length audio_data div 2 = 0" by simp
  then show ?thesis using True by (simp add: rms_def isqrt.simps[of 0])
next
  case False
  then have "0 < length audio_data div 2" by simp
  then show ?thesis using False by (simp add: rms_def floor_sqrt_div)
qed

section \<open>Energy classification\<close>

text \<open>
  Claim C4, as the code has it. The energy of a chunk is the integer part of
  \<open>sqrt (mean (sample\<^sub>i\<^sup>2))\<close> over its 16-bit signed samples. Both adapters count the chunk as
  speech when that integer is greater than the threshold: then the speech flag is set and
  the silence counter is reset to 0. Otherwise, so also when the energy equals the
  threshold, the chunk is silent: the silence counter is incremented and the speech flag is
  left as it is.
\<close>

theorem energy_classification:
  "rms audio_data =
     (if length audio_data < 2 then 0
      else \<lfloor>sqrt (real (sum_squares audio_data) / real (length audio_data div 2))\<rfloor>) \<and>
   update_silence a audio_data st =
     (if rms audio_data \<le> attr_silence_threshold a
      then st\<lparr>silence_counter := silence_counter st + 1\<rparr>
      else st\<lparr>has_speech := True, silence_counter := 0\<rparr>) \<and>
   hp_update_silence ha audio_data hst =
     (if rms audio_data \<le> hp_energy_threshold ha
      then hst\<lparr>hp_silence_counter := hp_silence_counter hst + 1\<rparr>
      else hst\<lparr>speech_detected := True, hp_silence_counter := 0\<rparr>)"
  using rms_floor_sqrt[of audio_data]
  by (simp add: update_silence_def hp_update_silence_def)

text \<open>
  A chunk of 4000 samples of value 500 has energy 500, the threshold of the example
  configuration. The claim as stated has it not silent; the loop counts it as silent.
\<close>

theorem energy_equal_threshold_is_silent:
  "rms (tone 4000 0xF4 0x01) = attr_silence_threshold example_attrs \<and>
   \<not> has_speech (fst (process_event silent_backend example_attrs (initial_state 0)
                        (Chunk (tone 4000 0xF4 0x01) (1 / 10) (1 / 10)))) \<and>
   silence_counter (fst (process_event silent_backend example_attrs (initial_state 0)
                        (Chunk (tone 4000 0xF4 0x01) (1 / 10) (1 / 10)))) = 1"
  by (simp add: process_event_def AudioSegment_tone update_silence_def rms_tone sample16_500
      example_attrs_def initial_state_def should_process_def Let_def)

section \<open>Malformed chunks\<close>

text \<open>
  Claim C5, as the code has it. A chunk of odd length is written to the WAV buffer before
  \<^verbatim>\<open>AudioSegment\<close> raises \<^verbatim>\<open>ValueError\<close>. The exception is caught in the loop, so nothing
  reaches the producer and the loop goes on: the speech flag, the silence counter and the
  start time are unchanged and nothing is flushed, but the buffer has grown by the bytes of
  the chunk.
\<close>

theorem odd_chunk_is_written_not_classified:
  assumes "length audio_data mod 2 = 1"
  shows "process_event whisper a st (Chunk audio_data now now_reset) =
           (st\<lparr>audio_buffer := \<lparr>header_written = True,
                                 frames = frames (audio_buffer st) @ audio_data\<rparr>\<rparr>, None) \<and>
         hp_process_event google ha hst (HpChunk audio_data) =
           (if writer_closed hst then hst
            else hst\<lparr>accumulated_audio := \<lparr>header_written = True,
                          frames = frames (accumulated_audio hst) @ audio_data\<rparr>\<rparr>, None)"
  using assms
  by (simp add: process_event_def hp_process_event_def AudioSegment_def writeframes_def Let_def)

theorem odd_chunk_is_written_not_classified_witness:
  "length (tone 5512 0 0 @ [0]) mod 2 = 1 \<and>
   process_event silent_backend odd_attrs (initial_state 0)
       (Chunk (tone 5512 0 0 @ [0]) (3 / 5) (3 / 5)) =
     ((initial_state 0)\<lparr>audio_buffer := \<lparr>header_written = True,
         frames = frames (audio_buffer (initial_state 0)) @ tone 5512 0 0 @ [0]\<rparr>\<rparr>, None) \<and>
   hp_process_event silent_backend hp_example_attrs hp_initial_state (HpChunk (tone 5512 0 0 @ [0])) =
     (if writer_closed hp_initial_state then hp_initial_state
      else hp_initial_state\<lparr>accumulated_audio := \<lparr>header_written = True,
              frames = frames (accumulated_audio hp_initial_state) @ tone 5512 0 0 @ [0]\<rparr>\<rparr>, None)"
proof -
  have h: "length (tone 5512 0 0 @ [0]) mod 2 = 1"
    by (simp add: length_tone)
  show ?thesis
    using h odd_chunk_is_written_not_classified[OF h, of silent_backend odd_attrs "initial_state 0"
        "3 / 5" "3 / 5" silent_backend hp_example_attrs hp_initial_state]
    by simp
qed

text \<open>
  With 11025 Hz and chunks of half a second every queued chunk has 11025 bytes. The claim
  as stated leaves the buffer length unchanged; the loop has appended the chunk.
\<close>

theorem odd_chunk_grows_buffer:
  "init odd_config = Inr odd_attrs \<and>
   length (tone 5512 0 0 @ [0]) mod 2 = 1 \<and>
   int (length (tone 5512 0 0 @ [0])) = chunk_size odd_attrs \<and>
   length (frames (audio_buffer (initial_state 0))) = 0 \<and>
   length (frames (audio_buffer (fst (process_event silent_backend odd_attrs (initial_state 0)
       (Chunk (tone 5512 0 0 @ [0]) (3 / 5) (3 / 5)))))) = 11025"
  by (simp add: init_odd process_event_def AudioSegment_def writeframes_def length_tone
      odd_attrs_def initial_state_def new_buffer_def Let_def)

section \<open>State after a flush\<close>

text \<open>
  Claim C1 at a failing input. With the example configuration and a buffer started at time
  0, the loop reads a chunk of speech at 0.1 s, a silent chunk at 0.2 s, and then finds the
  queue empty at 0.5 s. The idle path flushes both chunks and resets the buffer, the start
  time and the speech flag, but leaves the silence counter at 1.
\<close>

theorem idle_flush_keeps_silence_counter:
  "init example_config = Inr example_attrs \<and>
   process_audio_loop whisper example_attrs (initial_state 0)
     [Chunk (tone 4000 0xE8 0x03) (1 / 10) (1 / 10),
      Chunk (tone 4000 0 0) (1 / 5) (1 / 5),
      Empty (1 / 2) (1 / 2)] =
   (\<lparr>audio_buffer = new_buffer, buffer_start_time = 1 / 2, has_speech = False,
     silence_counter = 1\<rparr>,
    [transcribe_buffer whisper example_attrs
       \<lparr>header_written = True, frames = tone 4000 0xE8 0x03 @ tone 4000 0 0\<rparr>])"
  by (simp add: init_example process_event_def AudioSegment_tone update_silence_def rms_tone
      sample16_1000 sample16_0 example_attrs_def initial_state_def should_process_def
      writeframes_def new_buffer_def tell_def Let_def)

section \<open>Re-chunking in the ingestion loop\<close>

lemma init_tiny: "init tiny_config = Inr tiny_attrs"
  by (simp add: init_def tiny_config_def tiny_attrs_def py_int_def Let_def)

lemma slice_append: "slice_to n xs @ slice_from n xs = xs"
  by (simp add: slice_to_def slice_from_def)

lemma slice_to_length:
  "0 \<le> n \<Longrightarrow> n \<le> int (length xs) \<Longrightarrow> int (length (slice_to n xs)) = n"
  by (simp add: slice_to_def)

lemma run_loop_step_facts:
  assumes "run_loop_step a acc chunk = (acc1, put1)"
  shows "concat put1 @ acc1 = acc @ chunk"
    and "length put1 \<le> 1"
    and "0 \<le> chunk_size a \<Longrightarrow> \<forall>p \<in> set put1. int (length p) = chunk_size a"
  using assms
  by (auto simp: run_loop_step_def Let_def slice_append slice_to_length split: if_splits)

lemma run_loop_Cons:
  assumes "run_loop_step a acc chunk = (acc1, put1)"
    and "run_loop a acc1 rest = (acc2, put2)"
  shows "run_loop a acc (chunk # rest) = (acc2, put1 @ put2)"
  using assms by simp

lemma run_loop_facts:
  assumes "run_loop a acc inputs = (acc', queued)"
  shows "concat queued @ acc' = acc @ concat inputs \<and>
         length queued \<le> length inputs \<and>
         (0 \<le> chunk_size a \<longrightarrow> (\<forall>p \<in> set queued. int (length p) = chunk_size a))"
  using assms
proof (induction inputs arbitrary: acc acc' queued)
  case Nil
  then show ?case by simp
next
  case (Cons chunk rest)
  obtain acc1 put1 where s: "run_loop_step a acc chunk = (acc1, put1)"
    by (cases "run_loop_step a acc chunk")
  obtain acc2 put2 where r: "run_loop a acc1 rest = (acc2, put2)"
    by (cases "run_loop a acc1 rest")
  have "acc' = acc2 \<and> queued = put1 @ put2"
    using run_loop_Cons[OF s r] Cons.prems by (metis prod.inject)
  then have e: "acc' = acc2" "queued = put1 @ put2" by simp_all
  note ih = Cons.IH[OF r]
  have "concat put1 @ acc1 = acc @ chunk" using run_loop_step_facts(1)[OF s] .
  moreover have "concat put2 @ acc2 = acc1 @ concat rest" using ih by simp
  ultimately have 1: "concat queued @ acc' = acc @ concat (chunk # rest)"
    unfolding e by (metis append.assoc concat.simps(2) concat_append)
  have 2: "length queued \<le> length (chunk # rest)"
    unfolding e using ih run_loop_step_facts(2)[OF s] by simp
  have 3: "0 \<le> chunk_size a \<longrightarrow> (\<forall>p \<in> set queued. int (length p) = chunk_size a)"
    unfolding e using ih run_loop_step_facts(3)[OF s] by auto
  show ?case using 1 2 3 by blast
qed

text \<open>
  Claim C9. In the whisper.cpp adapter, with a chunk size that is not negative, every buffer
  that the ingestion loop puts on the processing queue has exactly \<^verbatim>\<open>chunk_size\<close> bytes, at
  most one buffer is queued per input chunk, and the queued buffers followed by the
  accumulator are the input bytes in order: bytes short of a full chunk stay in the
  accumulator, out of reach of the energy evaluation and of every flush, until further
  input completes a chunk.
\<close>

theorem rechunking_exact_size:
  assumes "0 \<le> chunk_size a"
    and "run_loop a [] inputs = (acc', queued)"
  shows "(\<forall>p \<in> set queued. int (length p) = chunk_size a) \<and>
         concat queued @ acc' = concat inputs \<and>
         length queued \<le> length inputs \<and>
         (\<forall>acc chunk. int (length (acc @ chunk)) < chunk_size a \<longrightarrow>
            run_loop_step a acc chunk = (acc @ chunk, []))"
proof -
  have "\<forall>acc chunk. int (length (acc @ chunk)) < chunk_size a \<longrightarrow>
          run_loop_step a acc chunk = (acc @ chunk, [])"
    by (simp add: run_loop_step_def)
  then show ?thesis
    using run_loop_facts[OF assms(2)] assms(1) by simp
qed

theorem rechunking_exact_size_witness:
  "0 \<le> chunk_size tiny_attrs \<and>
   run_loop tiny_attrs [] [[1, 2, 3], [4, 5, 6]] = ([5, 6], [[1, 2, 3, 4]]) \<and>
   int (length [1, 2, 3, 4 :: byte]) = chunk_size tiny_attrs \<and>
   concat [[1, 2, 3, 4]] @ [5, 6] = concat [[1, 2, 3], [4, 5, 6 :: byte]] \<and>
   run_loop_step tiny_attrs [] [1, 2, 3] = ([] @ [1, 2, 3], [])"
proof -
  have h1: "0 \<le> chunk_size tiny_attrs"
    by (simp add: tiny_attrs_def)
  have h2: "run_loop tiny_attrs [] [[1, 2, 3], [4, 5, 6]] = ([5, 6], [[1, 2, 3, 4]])"
    by (simp add: run_loop_step_def tiny_attrs_def slice_to_def slice_from_def)
  show ?thesis
    using h1 h2 rechunking_exact_size[OF h1 h2]
    by (simp add: tiny_attrs_def)
qed

section \<open>Emission\<close>

lemma read_all_closed:
  "read_all rate (close_writer buf) = wav_header rate (length (frames buf)) @ frames buf"
  by (simp add: read_all_def close_writer_def)

lemma payload_closed: "drop 44 (read_all rate (close_writer buf)) = frames buf"
  by (simp add: read_all_closed wav_header_length)

lemma length_read_all_closed: "length (read_all rate (close_writer buf)) = 44 + length (frames buf)"
  by (simp add: read_all_closed wav_header_length)

lemma transcribe_buffer_calls:
  "recognizer_calls (transcribe_buffer whisper a buf) = (if frames buf = [] then [] else [frames buf])"
  by (simp add: transcribe_buffer_def Let_def payload_closed length_read_all_closed
      split: sum.splits)

lemma transcribe_buffer_produced:
  "t \<in> set (produced (transcribe_buffer whisper a buf)) \<Longrightarrow> is_final t \<and> message t \<noteq> []"
  by (auto simp: transcribe_buffer_def Let_def split: sum.splits if_splits)

lemma transcribe_buffer_empty:
  "frames buf = [] \<Longrightarrow> produced (transcribe_buffer whisper a buf) = []"
  by (simp add: transcribe_buffer_def Let_def length_read_all_closed)

lemma process_audio_produced:
  "t \<in> set (produced (snd (process_audio google rate buf))) \<Longrightarrow> is_final t \<and> message t \<noteq> []"
  by (auto simp: process_audio_def Let_def split: sum.splits if_splits)

lemma hp_recognize_produced:
  "snd (hp_recognize google ha hst) = Some r \<Longrightarrow> t \<in> set (produced r)
     \<Longrightarrow> is_final t \<and> message t \<noteq> []"
  by (auto simp: hp_recognize_def Let_def split: sum.splits if_splits)

lemma hp_process_event_produced:
  "snd (hp_process_event google ha hst ev) = Some r \<Longrightarrow> t \<in> set (produced r)
     \<Longrightarrow> is_final t \<and> message t \<noteq> []"
  by (auto simp: hp_process_event_def Let_def dest: hp_recognize_produced
      split: hp_event.splits sum.splits if_splits)

section \<open>Order of the bytes\<close>














section \<open>The flush decision\<close>

lemma AudioSegment_even: "length audio_data mod 2 = 0 \<Longrightarrow> AudioSegment audio_data = Inr audio_data"
  by (simp add: AudioSegment_def)

lemma update_silence_fields [simp]:
  "audio_buffer (update_silence a seg st) = audio_buffer st"
  "buffer_start_time (update_silence a seg st) = buffer_start_time st"
  by (simp_all add: update_silence_def)

lemma tell_writeframes: "0 < tell (writeframes audio_data buf)"
  by (simp add: tell_def writeframes_def)

lemma process_event_chunk_even:
  assumes "length audio_data mod 2 = 0"
  shows "process_event whisper a st (Chunk audio_data now now_reset) =
     (let st2 = update_silence a audio_data
                  (st\<lparr>audio_buffer := writeframes audio_data (audio_buffer st)\<rparr>)
      in if should_process a st2 (now - buffer_start_time st)
         then (\<lparr>audio_buffer = new_buffer, buffer_start_time = now_reset,
                has_speech = False, silence_counter = 0\<rparr>,
               Some (transcribe_buffer whisper a (audio_buffer st2)))
         else (st2, None))"
  using assms
  by (simp add: process_event_def AudioSegment_even Let_def tell_writeframes)





section \<open>Silence and the duration cap\<close>







lemma hp_process_audio_loop_Cons:
  assumes "hp_process_event google ha hst ev = (st1, out1)"
    and "hp_process_audio_loop google ha st1 rest = (st2, out2)"
  shows "hp_process_audio_loop google ha hst (ev # rest) =
           (st2, (case out1 of None \<Rightarrow> [] | Some r \<Rightarrow> [r]) @ out2)"
  using assms by simp






section \<open>The idle-timeout flush\<close>

text \<open>
  Claim C7, as the code has it. In the whisper.cpp adapter an empty poll with speech seen
  and a duration of at least \<^verbatim>\<open>min_chunk_duration\<close> flushes: the buffer goes to
  \<^verbatim>\<open>_transcribe_buffer\<close>, as in the flush after a chunk, and the buffer, the start time and the
  speech flag are reset. Any other empty poll leaves the state as it is. In the adapter of
  \<^verbatim>\<open>high_performance_oss_demo.py\<close> an empty poll never flushes and changes nothing.
\<close>

theorem idle_timeout_flush:
  "(has_speech st \<and> now - buffer_start_time st \<ge> attr_min_chunk_duration a \<longrightarrow>
      snd (process_event whisper a st (Empty now now_reset)) =
        Some (transcribe_buffer whisper a (audio_buffer st)) \<and>
      audio_buffer (fst (process_event whisper a st (Empty now now_reset))) = new_buffer \<and>
      buffer_start_time (fst (process_event whisper a st (Empty now now_reset))) = now_reset \<and>
      \<not> has_speech (fst (process_event whisper a st (Empty now now_reset)))) \<and>
   (\<not> (has_speech st \<and> now - buffer_start_time st \<ge> attr_min_chunk_duration a) \<longrightarrow>
      process_event whisper a st (Empty now now_reset) = (st, None)) \<and>
   (length audio_data mod 2 = 0 \<and>
    snd (process_event whisper a st (Chunk audio_data now now_reset)) \<noteq> None \<longrightarrow>
      snd (process_event whisper a st (Chunk audio_data now now_reset)) =
        Some (transcribe_buffer whisper a (writeframes audio_data (audio_buffer st))) \<and>
      audio_buffer (fst (process_event whisper a st (Chunk audio_data now now_reset))) = new_buffer \<and>
      buffer_start_time (fst (process_event whisper a st (Chunk audio_data now now_reset))) = now_reset \<and>
      \<not> has_speech (fst (process_event whisper a st (Chunk audio_data now now_reset)))) \<and>
   hp_process_event google ha hst HpEmpty = (hst, None)"
proof -
  have 1: "length audio_data mod 2 = 0 \<and>
    snd (process_event whisper a st (Chunk audio_data now now_reset)) \<noteq> None \<longrightarrow>
      snd (process_event whisper a st (Chunk audio_data now now_reset)) =
        Some (transcribe_buffer whisper a (writeframes audio_data (audio_buffer st))) \<and>
      audio_buffer (fst (process_event whisper a st (Chunk audio_data now now_reset))) = new_buffer \<and>
      buffer_start_time (fst (process_event whisper a st (Chunk audio_data now now_reset))) = now_reset \<and>
      \<not> has_speech (fst (process_event whisper a st (Chunk audio_data now now_reset)))"
  proof (intro impI, elim conjE)
    assume e: "length audio_data mod 2 = 0"
      and f: "snd (process_event whisper a st (Chunk audio_data now now_reset)) \<noteq> None"
    note p = process_event_chunk_even[OF e, of whisper a st now now_reset]
    have sp: "should_process a (update_silence a audio_data
                (st\<lparr>audio_buffer := writeframes audio_data (audio_buffer st)\<rparr>))
                (now - buffer_start_time st)"
      using f unfolding p by (simp add: Let_def split: if_splits)
    show "snd (process_event whisper a st (Chunk audio_data now now_reset)) =
        Some (transcribe_buffer whisper a (writeframes audio_data (audio_buffer st))) \<and>
      audio_buffer (fst (process_event whisper a st (Chunk audio_data now now_reset))) = new_buffer \<and>
      buffer_start_time (fst (process_event whisper a st (Chunk audio_data now now_reset))) = now_reset \<and>
      \<not> has_speech (fst (process_event whisper a st (Chunk audio_data now now_reset)))"
      unfolding p using sp by (simp add: Let_def)
  qed
  show ?thesis
    using 1 by (simp add: process_event_def hp_process_event_def)
qed

theorem idle_timeout_flush_witness:
  "has_speech \<lparr>audio_buffer = \<lparr>header_written = True, frames = tone 4000 0xE8 0x03\<rparr>,
               buffer_start_time = 0, has_speech = True, silence_counter = 0\<rparr> \<and>
   (1 / 2 :: real) - 0 \<ge> attr_min_chunk_duration example_attrs \<and>
   snd (process_event silent_backend example_attrs
          \<lparr>audio_buffer = \<lparr>header_written = True, frames = tone 4000 0xE8 0x03\<rparr>,
           buffer_start_time = 0, has_speech = True, silence_counter = 0\<rparr>
          (Empty (1 / 2) (1 / 2))) =
     Some (transcribe_buffer silent_backend example_attrs
             \<lparr>header_written = True, frames = tone 4000 0xE8 0x03\<rparr>) \<and>
   process_event silent_backend example_attrs (initial_state 0) (Empty (1 / 2) (1 / 2)) =
     (initial_state 0, None) \<and>
   length (tone 4000 0 0) mod 2 = 0 \<and>
   snd (process_event silent_backend example_attrs (initial_state 0)
          (Chunk (tone 4000 0 0) (1 / 2) (1 / 2))) =
     Some (transcribe_buffer silent_backend example_attrs
             (writeframes (tone 4000 0 0) (audio_buffer (initial_state 0))))"
proof -
  have l: "length (tone 4000 0 0) mod 2 = 0"
    by (simp add: length_tone)
  have f: "snd (process_event silent_backend example_attrs (initial_state 0)
          (Chunk (tone 4000 0 0) (1 / 2) (1 / 2))) \<noteq> None"
    by (simp add: process_event_chunk_even[OF l] Let_def should_process_def example_attrs_def
        initial_state_def)
  show ?thesis
    using l f
      idle_timeout_flush[where st = "\<lparr>audio_buffer = \<lparr>header_written = True, frames = tone 4000 0xE8 0x03\<rparr>,
               buffer_start_time = 0, has_speech = True, silence_counter = 0\<rparr>"
        and now = "1 / 2" and now_reset = "1 / 2" and a = example_attrs
        and whisper = silent_backend]
      idle_timeout_flush[where st = "initial_state 0" and now = "1 / 2" and now_reset = "1 / 2"
        and a = example_attrs and whisper = silent_backend and audio_data = "tone 4000 0 0"]
    by (simp add: example_attrs_def initial_state_def)
qed

text \<open>
  The loop of \<^verbatim>\<open>high_performance_oss_demo.py\<close> reads a chunk of speech and then finds the queue
  empty three times: speech has been seen and time has passed, but nothing is flushed. The
  claim as stated has an idle-timeout flush.
\<close>

theorem no_idle_flush_without_timeout_branch:
  "hp_process_audio_loop silent_backend hp_example_attrs hp_initial_state
     [HpChunk (tone 8000 0xE8 0x03), HpEmpty, HpEmpty, HpEmpty] =
   (\<lparr>accumulated_audio = \<lparr>header_written = True, frames = tone 8000 0xE8 0x03\<rparr>,
     writer_closed = False, speech_detected = True, hp_silence_counter = 0\<rparr>, [])"
  by (simp add: hp_process_event_def AudioSegment_tone hp_update_silence_def rms_tone
      sample16_1000 hp_example_attrs_def hp_initial_state_def writeframes_def new_buffer_def
      Let_def)

section \<open>Shutdown\<close>

lemma blocking_loop_terminate_last:
  "blocking_loop body False st (map Arrive xs @ [Terminate]) = None"
  by (induction xs arbitrary: st) simp_all

lemma polling_loop_terminate_last:
  "polling_loop body ended st (script @ [Terminate]) \<noteq> None"
proof (induction script arbitrary: ended st)
  case Nil
  show ?case by simp
next
  case (Cons e script)
  show ?case
  proof (cases e)
    case (Arrive x)
    then show ?thesis using Cons.IH by (simp add: Let_def)
  next
    case Terminate
    then show ?thesis using Cons.IH by simp
  qed
qed

text \<open>
  Claim C8 at a failing input. Chunks arrive and are handled, then \<^verbatim>\<open>terminate()\<close> is called
  and nothing arrives any more. Each of the three ingestion loops waits in \<^verbatim>\<open>get()\<close> without
  a timeout and never returns, while the processing loop, which polls with a timeout of
  0.1 s, does return.
\<close>

theorem run_loop_blocked_after_terminate:
  "gsr_run_loop google rate False buf (map Arrive chunks @ [Terminate]) = None \<and>
   whisper_run_loop a False acc (map Arrive chunks @ [Terminate]) = None \<and>
   hp_run_loop_ended ha False cb (map Arrive chunks @ [Terminate]) = None \<and>
   hp_process_loop_ended google ha False hst (map Arrive chunks @ [Terminate]) \<noteq> None \<and>
   gsr_run_loop google rate False buf (map Arrive chunks @ [Terminate, Arrive chunk]) \<noteq> None"
proof -
  have "blocking_loop body False st (map Arrive xs @ [Terminate, Arrive x]) \<noteq> None"
    for body :: "'s \<Rightarrow> 'a \<Rightarrow> 's" and st xs x
    by (induction xs arbitrary: st) (simp_all add: Let_def)
  then show ?thesis
    by (simp add: gsr_run_loop_def whisper_run_loop_def hp_run_loop_ended_def
        hp_process_loop_ended_def run_blocking_loop_def run_polling_loop_def
        blocking_loop_terminate_last polling_loop_terminate_last)
qed

section \<open>Recognition calls\<close>

lemma rms_positive_nonempty: "0 \<le> t \<Longrightarrow> t < rms audio_data \<Longrightarrow> audio_data \<noteq> []"
  by (auto simp: rms_def)

lemma process_audio_calls:
  "recognizer_calls (snd (process_audio google rate buf)) = [frames buf]"
  by (simp add: process_audio_def Let_def payload_closed split: sum.splits)

lemma gsr_body_flush:
  assumes "44 < rate * 2"
    and "snd (gsr_body google rate buf chunk) = Some r"
  shows "recognizer_calls r = [frames buf @ chunk] \<and> frames buf @ chunk \<noteq> []"
proof -
  let ?b = "writeframes chunk buf"
  have f: "frames ?b = frames buf @ chunk"
    by (simp add: writeframes_def)
  have t: "int (tell ?b) = 44 + int (length (frames buf @ chunk))"
    by (simp add: tell_def writeframes_def)
  have c: "int (tell ?b) \<ge> rate * 2" and r: "r = snd (process_audio google rate ?b)"
    using assms(2) by (auto simp: gsr_body_def Let_def split: if_splits prod.splits)
  have "frames buf @ chunk \<noteq> []"
    using c t assms(1) by auto
  then show ?thesis
    unfolding r by (simp add: process_audio_calls f)
qed

lemma hp_recognize_calls:
  "snd (hp_recognize google ha hst) = Some r \<Longrightarrow>
     recognizer_calls r = [frames (accumulated_audio hst)]"
  by (auto simp: hp_recognize_def Let_def payload_closed split: sum.splits if_splits)

lemma hp_recognize_state:
  "speech_detected (fst (hp_recognize google ha hst)) \<Longrightarrow>
     speech_detected hst \<and>
     frames (accumulated_audio (fst (hp_recognize google ha hst))) = frames (accumulated_audio hst)"
  by (auto simp: hp_recognize_def Let_def close_writer_def split: sum.splits if_splits)

lemma hp_step_payload:
  assumes t: "0 \<le> hp_energy_threshold ha"
    and inv: "speech_detected hst \<longrightarrow> frames (accumulated_audio hst) \<noteq> []"
  shows "(speech_detected (fst (hp_process_event google ha hst ev)) \<longrightarrow>
            frames (accumulated_audio (fst (hp_process_event google ha hst ev))) \<noteq> []) \<and>
         (\<forall>r. snd (hp_process_event google ha hst ev) = Some r \<longrightarrow>
            length (recognizer_calls r) = 1 \<and> [] \<notin> set (recognizer_calls r))"
proof (cases ev)
  case HpEmpty
  then show ?thesis using inv by (simp add: hp_process_event_def)
next
  case (HpChunk audio_data)
  show ?thesis
  proof (cases "writer_closed hst")
    case True
    then show ?thesis using inv by (simp add: HpChunk hp_process_event_def)
  next
    case open_writer: False
    let ?st1 = "hst\<lparr>accumulated_audio := writeframes audio_data (accumulated_audio hst)\<rparr>"
    have inv1: "speech_detected ?st1 \<longrightarrow> frames (accumulated_audio ?st1) \<noteq> []"
      using inv by (simp add: writeframes_def)
    show ?thesis
    proof (cases "length audio_data mod 2 = 0")
      case False
      then have "hp_process_event google ha hst ev = (?st1, None)"
        using open_writer by (simp add: HpChunk hp_process_event_def AudioSegment_def)
      then show ?thesis using inv1 by simp
    next
      case True
      let ?st2 = "hp_update_silence ha audio_data ?st1"
      have f2: "frames (accumulated_audio ?st2) = frames (accumulated_audio hst) @ audio_data"
        by (simp add: hp_update_silence_def writeframes_def)
      have inv2: "speech_detected ?st2 \<longrightarrow> frames (accumulated_audio ?st2) \<noteq> []"
      proof
        assume sd: "speech_detected ?st2"
        show "frames (accumulated_audio ?st2) \<noteq> []"
        proof (cases "rms audio_data > hp_energy_threshold ha")
          case True
          then have "audio_data \<noteq> []" using rms_positive_nonempty[OF t] by blast
          then show ?thesis unfolding f2 by simp
        next
          case False
          then have "speech_detected hst" using sd by (simp add: hp_update_silence_def)
          then show ?thesis unfolding f2 using inv by simp
        qed
      qed
      have e: "hp_process_event google ha hst ev =
                 (if speech_detected ?st2 \<and> hp_silence_counter ?st2 \<ge> hp_max_silence_chunks ha
                  then hp_recognize google ha ?st2 else (?st2, None))"
        using open_writer True
        by (simp add: HpChunk hp_process_event_def AudioSegment_even Let_def)
      show ?thesis
      proof (cases "speech_detected ?st2 \<and> hp_silence_counter ?st2 \<ge> hp_max_silence_chunks ha")
        case False
        then have "hp_process_event google ha hst ev = (?st2, None)"
          unfolding e by (rule if_not_P)
        then show ?thesis using inv2 by simp
      next
        case flush: True
        then have e': "hp_process_event google ha hst ev = hp_recognize google ha ?st2"
          unfolding e by (rule if_P)
        have n: "frames (accumulated_audio ?st2) \<noteq> []"
          using inv2 flush by blast
        have 1: "speech_detected (fst (hp_recognize google ha ?st2)) \<longrightarrow>
                 frames (accumulated_audio (fst (hp_recognize google ha ?st2))) \<noteq> []"
          using hp_recognize_state[of google ha ?st2] n by auto
        have 2: "\<forall>r. snd (hp_recognize google ha ?st2) = Some r \<longrightarrow>
                   length (recognizer_calls r) = 1 \<and> [] \<notin> set (recognizer_calls r)"
          using hp_recognize_calls[of google ha ?st2] n by auto
        show ?thesis unfolding e' using 1 2 by blast
      qed
    qed
  qed
qed

lemma hp_run_payload:
  assumes "0 \<le> hp_energy_threshold ha"
    and "speech_detected hst \<longrightarrow> frames (accumulated_audio hst) \<noteq> []"
  shows "\<forall>r \<in> set (snd (hp_process_audio_loop google ha hst hevs)).
           length (recognizer_calls r) = 1 \<and> [] \<notin> set (recognizer_calls r)"
  using assms(2)
proof (induction hevs arbitrary: hst)
  case Nil
  then show ?case by simp
next
  case (Cons ev rest)
  obtain st1 out1 where s: "hp_process_event google ha hst ev = (st1, out1)"
    by (cases "hp_process_event google ha hst ev")
  obtain st2 out2 where r: "hp_process_audio_loop google ha st1 rest = (st2, out2)"
    by (cases "hp_process_audio_loop google ha st1 rest")
  note p = hp_step_payload[OF assms(1) Cons.prems, of google ev]
  have i1: "speech_detected st1 \<longrightarrow> frames (accumulated_audio st1) \<noteq> []"
    using p s by simp
  have o1: "\<forall>r \<in> set (case out1 of None \<Rightarrow> [] | Some r \<Rightarrow> [r]).
              length (recognizer_calls r) = 1 \<and> [] \<notin> set (recognizer_calls r)"
    using p s by (cases out1) simp_all
  have o2: "\<forall>r \<in> set out2. length (recognizer_calls r) = 1 \<and> [] \<notin> set (recognizer_calls r)"
    using Cons.IH[OF i1] r by simp
  show ?case
    using hp_process_audio_loop_Cons[OF s r] o1 o2 by auto
qed

text \<open>
  Claim C10, as the code has it. In the whisper.cpp adapter a flush reads the closed WAV
  file, which has 44 header bytes and then the accumulated frames, and calls the
  recognition backend only when there is more than the header: exactly once, with the
  frames, when the frames are not empty, and not at all, producing nothing, when they are
  empty. The two Google adapters have no such guard, and every flush of theirs calls the
  recognizer. In \<^verbatim>\<open>google_sr_transcriber.py\<close> the payload of that call is not empty whenever
  the buffer size \<^verbatim>\<open>sampling_rate * 2\<close> is above the 44 header bytes; in
  \<^verbatim>\<open>high_performance_oss_demo.py\<close> it is not empty, from the start of the loop on, whenever
  the energy threshold is not negative. In all three adapters every transcription handed
  to the output is final and has a message that is not empty.
\<close>

theorem recognition_payload:
  "length (read_all (cfg_sampling_rate a) (close_writer buf)) = 44 + length (frames buf) \<and>
   recognizer_calls (transcribe_buffer whisper a buf) =
     (if length (read_all (cfg_sampling_rate a) (close_writer buf)) > 44 then [frames buf] else []) \<and>
   (frames buf = [] \<longrightarrow> produced (transcribe_buffer whisper a buf) = []) \<and>
   (44 < rate * 2 \<longrightarrow>
      (\<forall>r. snd (gsr_body google rate gbuf chunk) = Some r \<longrightarrow>
         recognizer_calls r = [frames gbuf @ chunk] \<and> frames gbuf @ chunk \<noteq> [])) \<and>
   (0 \<le> hp_energy_threshold ha \<longrightarrow>
      (\<forall>r \<in> set (snd (hp_process_audio_loop google ha hp_initial_state hevs)).
         length (recognizer_calls r) = 1 \<and> [] \<notin> set (recognizer_calls r))) \<and>
   (\<forall>t \<in> set (produced (transcribe_buffer whisper a buf)). is_final t \<and> message t \<noteq> []) \<and>
   (\<forall>t \<in> set (produced (snd (process_audio google rate gbuf))). is_final t \<and> message t \<noteq> []) \<and>
   (\<forall>r. snd (hp_process_event google ha hst ev) = Some r \<longrightarrow>
      (\<forall>t \<in> set (produced r). is_final t \<and> message t \<noteq> []))"
proof -
  have g: "44 < rate * 2 \<longrightarrow>
      (\<forall>r. snd (gsr_body google rate gbuf chunk) = Some r \<longrightarrow>
         recognizer_calls r = [frames gbuf @ chunk] \<and> frames gbuf @ chunk \<noteq> [])"
    using gsr_body_flush[of rate google gbuf chunk] by blast
  have h: "0 \<le> hp_energy_threshold ha \<longrightarrow>
      (\<forall>r \<in> set (snd (hp_process_audio_loop google ha hp_initial_state hevs)).
         length (recognizer_calls r) = 1 \<and> [] \<notin> set (recognizer_calls r))"
    using hp_run_payload[of ha hp_initial_state google hevs]
    by (simp add: hp_initial_state_def)
  have w: "length (read_all (cfg_sampling_rate a) (close_writer buf)) = 44 + length (frames buf) \<and>
   recognizer_calls (transcribe_buffer whisper a buf) =
     (if length (read_all (cfg_sampling_rate a) (close_writer buf)) > 44 then [frames buf] else []) \<and>
   (frames buf = [] \<longrightarrow> produced (transcribe_buffer whisper a buf) = [])"
    by (auto simp: length_read_all_closed transcribe_buffer_calls transcribe_buffer_empty)
  have p: "(\<forall>t \<in> set (produced (transcribe_buffer whisper a buf)). is_final t \<and> message t \<noteq> []) \<and>
   (\<forall>t \<in> set (produced (snd (process_audio google rate gbuf))). is_final t \<and> message t \<noteq> []) \<and>
   (\<forall>r. snd (hp_process_event google ha hst ev) = Some r \<longrightarrow>
      (\<forall>t \<in> set (produced r). is_final t \<and> message t \<noteq> []))"
    using transcribe_buffer_produced[of _ whisper a buf] process_audio_produced[of _ google rate gbuf]
      hp_process_event_produced[of google ha hst ev]
    by blast
  show ?thesis using w g h p by blast
qed

theorem recognition_payload_witness:
  "frames new_buffer = [] \<and>
   produced (transcribe_buffer hello_backend example_attrs new_buffer) = [] \<and>
   recognizer_calls (transcribe_buffer hello_backend example_attrs new_buffer) = [] \<and>
   recognizer_calls (transcribe_buffer hello_backend example_attrs
       \<lparr>header_written = True, frames = [1, 2]\<rparr>) = [[1, 2]] \<and>
   produced (transcribe_buffer hello_backend example_attrs
       \<lparr>header_written = True, frames = [1, 2]\<rparr>) =
     [\<lparr>message = ''hello'', confidence = 0.98, is_final = True\<rparr>] \<and>
   (44 :: int) < 16000 * 2 \<and>
   snd (gsr_body hello_backend 16000 \<lparr>header_written = True, frames = tone 16000 0 0\<rparr> [1, 2]) =
     Some \<lparr>recognizer_calls = [tone 16000 0 0 @ [1, 2]],
           produced = [\<lparr>message = '' hello '', confidence = 0.9, is_final = True\<rparr>]\<rparr> \<and>
   tone 16000 0 0 @ [1, 2] \<noteq> [] \<and>
   0 \<le> hp_energy_threshold hp_example_attrs \<and>
   snd (hp_process_audio_loop hello_backend hp_example_attrs hp_initial_state
          [HpChunk (tone 8000 0xE8 0x03), HpChunk (tone 8000 0 0), HpChunk (tone 8000 0 0)]) =
     [\<lparr>recognizer_calls = [tone 8000 0xE8 0x03 @ tone 8000 0 0 @ tone 8000 0 0],
       produced = [\<lparr>message = '' hello '', confidence = 0.95, is_final = True\<rparr>]\<rparr>] \<and>
   tone 8000 0xE8 0x03 @ tone 8000 0 0 @ tone 8000 0 0 \<noteq> [] \<and>
   produced (snd (process_audio hello_backend 16000
       \<lparr>header_written = True, frames = tone 16000 0 0\<rparr>)) =
     [\<lparr>message = '' hello '', confidence = 0.9, is_final = True\<rparr>] \<and>
   snd (hp_process_event hello_backend hp_example_attrs
         \<lparr>accumulated_audio = \<lparr>header_written = True, frames = [1, 2]\<rparr>, writer_closed = False,
          speech_detected = True, hp_silence_counter = 1\<rparr> (HpChunk [0, 0])) =
     Some \<lparr>recognizer_calls = [[1, 2, 0, 0]],
           produced = [\<lparr>message = '' hello '', confidence = 0.95, is_final = True\<rparr>]\<rparr>"
proof -
  have s: "strip '' hello '' = ''hello''"
    by (simp add: strip_def is_space_def)
  have r: "rms [0, 0] = 0"
    by (simp add: rms_def sum_squares_def sample16_def isqrt.simps[of 0])
  have g: "snd (gsr_body hello_backend 16000 \<lparr>header_written = True, frames = tone 16000 0 0\<rparr> [1, 2]) =
     Some \<lparr>recognizer_calls = [tone 16000 0 0 @ [1, 2]],
           produced = [\<lparr>message = '' hello '', confidence = 0.9, is_final = True\<rparr>]\<rparr>"
    by (simp add: gsr_body_def process_audio_def writeframes_def tell_def length_tone
        payload_closed hello_backend_def Let_def)
  have h: "snd (hp_process_audio_loop hello_backend hp_example_attrs hp_initial_state
          [HpChunk (tone 8000 0xE8 0x03), HpChunk (tone 8000 0 0), HpChunk (tone 8000 0 0)]) =
     [\<lparr>recognizer_calls = [tone 8000 0xE8 0x03 @ tone 8000 0 0 @ tone 8000 0 0],
       produced = [\<lparr>message = '' hello '', confidence = 0.95, is_final = True\<rparr>]\<rparr>]"
    by (simp add: hp_process_event_def hp_recognize_def AudioSegment_tone hp_update_silence_def
        rms_tone sample16_1000 sample16_0 hp_example_attrs_def hp_initial_state_def
        writeframes_def new_buffer_def payload_closed hello_backend_def Let_def)
  note t = recognition_payload[where a = example_attrs and buf = new_buffer
        and whisper = hello_backend and google = hello_backend and rate = 16000
        and gbuf = "\<lparr>header_written = True, frames = tone 16000 0 0\<rparr>" and chunk = "[1, 2]"
        and ha = hp_example_attrs
        and hevs = "[HpChunk (tone 8000 0xE8 0x03), HpChunk (tone 8000 0 0), HpChunk (tone 8000 0 0)]"
        and hst = "\<lparr>accumulated_audio = \<lparr>header_written = True, frames = [1, 2]\<rparr>,
                    writer_closed = False, speech_detected = True, hp_silence_counter = 1\<rparr>"
        and ev = "HpChunk [0, 0]"]
  have n1: "tone 16000 0 0 @ [1, 2] \<noteq> []"
    using t g by simp
  have n2: "tone 8000 0xE8 0x03 @ tone 8000 0 0 @ tone 8000 0 0 \<noteq> []"
    using t h by (simp add: hp_example_attrs_def)
  show ?thesis
    using t g h n1 n2
    by (simp add: s r transcribe_buffer_def process_audio_def hp_process_event_def
        hp_recognize_def hp_update_silence_def AudioSegment_def writeframes_def
        payload_closed length_read_all_closed hello_backend_def new_buffer_def
        hp_example_attrs_def Let_def)
qed

text \<open>
  \<^verbatim>\<open>google_sr_transcriber.py\<close> at a sampling rate of 22 has a buffer size of 44. An empty
  chunk makes the writer emit the header, the position reaches the buffer size, and the
  recognizer is called with an empty payload. The claim as stated has no recognition call
  for a flush without payload.
\<close>

theorem empty_flush_calls_recognizer:
  "int (tell (writeframes [] new_buffer)) = 22 * 2 \<and>
   gsr_body silent_backend 22 new_buffer [] =
     (new_buffer, Some \<lparr>recognizer_calls = [[]], produced = []\<rparr>)"
  by (simp add: gsr_body_def process_audio_def writeframes_def tell_def new_buffer_def
      payload_closed silent_backend_def Let_def)

end
